theory Spec2Isabelle
  imports Main
begin

section \<open>The material ledger of DivyaSwastikBackend\<close>

text \<open>
  The development embeds the material routes (add, take, bulk status update) and the
  monthly material report of the backend. The collection of Material documents is a list
  in insertion order; it may hold any documents (entered by the routes or directly into
  the database). Quantities are JavaScript numbers (doubles) in the source. The model
  keeps the integral ones: a stored quantity is an \<open>int\<close>, taken to be a double, and
  fractional quantities are outside the model. The arithmetic of the take route is the
  arithmetic of doubles on such numbers: a result beyond \<open>2^53\<close> is rounded to 53
  significant bits, a result beyond the largest double is an infinity, and a request
  quantity may also be \<open>NaN\<close> or an infinity. The sums of the report are sums of
  integers, which are the source's sums as long as they stay within \<open>2^53\<close>. Dates are
  milliseconds since the epoch.
\<close>

subsection \<open>Documents (models/Material.js)\<close>

record usage =
  takenBy :: "string option"
  u_quantity :: int
  u_date :: int

record material =
  m_id :: nat
  name :: "string option"
  matCode :: string
  quantity :: int
  availableQuantity :: int
  amount :: "int option"
  date :: int
  document :: string
  addedBy :: string
  status :: string
  usageHistory :: "usage list"
  projectAssigned :: nat

type_synonym store = "material list"

text \<open>The enum of the schema's status path, and its default.\<close>

definition status_enum :: "string list" where
  "status_enum = [''Available'', ''Out of Stock'', ''On Hold'']"

definition status_default :: string where
  "status_default = ''Available''"

text \<open>
  The validation that \<open>save\<close> runs on a document, new or loaded: the required strings
  \<open>name\<close>, \<open>matCode\<close> and \<open>addedBy\<close> are there and not empty, and the status is one
  of the enum. (\<open>quantity\<close>, \<open>date\<close> and \<open>projectAssigned\<close>, also required, are
  always there in a document of the model; an absent or empty \<open>matCode\<close> or
  \<open>addedBy\<close> is the empty string.)
\<close>

definition validate :: "material \<Rightarrow> bool" where
  "validate m =
     (name m \<noteq> None \<and> name m \<noteq> Some [] \<and> matCode m \<noteq> [] \<and> addedBy m \<noteq> []
      \<and> status m \<in> set status_enum)"

subsection \<open>Responses\<close>

datatype error =
    InvalidProject          \<comment> \<open>400 "Invalid project selected"\<close>
  | MaterialNotFound        \<comment> \<open>404 "Material not found or out of stock"\<close>
  | InsufficientStock       \<comment> \<open>400 "Not enough material available"\<close>
  | InvalidStatus           \<comment> \<open>400 "Invalid status value"\<close>
  | NoMaterialsForCode      \<comment> \<open>404 "No materials found with this matCode"\<close>
  | MonthYearRequired       \<comment> \<open>400 "Month and year required"\<close>
  | ServerError             \<comment> \<open>500, the \<open>catch\<close> of a route: here a rejected \<open>save\<close>\<close>

subsection \<open>JavaScript numbers\<close>

datatype jsnum = Num int | NaN | PosInfinity | NegInfinity

text \<open>The number of bits of a positive integer.\<close>

function bit_length :: "int \<Rightarrow> nat" where
  "bit_length n = (if n \<le> 0 then 0 else Suc (bit_length (n div 2)))"
  by pat_completeness auto
termination
  by (relation "measure nat") auto

text \<open>
  The double nearest to an integer: the integer itself when its magnitude has at most
  53 bits, else its magnitude rounded to 53 significant bits, a tie to the even one, and
  an infinity from \<open>2^1024\<close> on.
\<close>

definition to_double :: "int \<Rightarrow> jsnum" where
  "to_double n =
     (let a = \<bar>n\<bar>;
          e = bit_length a - 53;
          q = a div 2 ^ e;
          r = a mod 2 ^ e;
          up = (2 ^ e < 2 * r \<or> (2 * r = 2 ^ e \<and> odd q));
          m = (if up then q + 1 else q) * 2 ^ e
      in if 2 ^ 1024 \<le> m then (if n < 0 then NegInfinity else PosInfinity)
         else Num (if n < 0 then - m else m))"

text \<open>Comparisons with \<open>NaN\<close> are false, arithmetic with \<open>NaN\<close> is \<open>NaN\<close>.\<close>

fun js_lt :: "jsnum \<Rightarrow> jsnum \<Rightarrow> bool" where
  "js_lt (Num a) (Num b) = (a < b)"
| "js_lt NaN _ = False"
| "js_lt _ NaN = False"
| "js_lt PosInfinity _ = False"
| "js_lt _ NegInfinity = False"
| "js_lt _ PosInfinity = True"
| "js_lt NegInfinity _ = True"

definition js_le :: "jsnum \<Rightarrow> jsnum \<Rightarrow> bool" where
  "js_le x y = (x \<noteq> NaN \<and> y \<noteq> NaN \<and> (js_lt x y \<or> x = y))"

definition js_ge :: "jsnum \<Rightarrow> jsnum \<Rightarrow> bool" where
  "js_ge x y = js_le y x"

fun js_add :: "jsnum \<Rightarrow> jsnum \<Rightarrow> jsnum" where
  "js_add (Num a) (Num b) = to_double (a + b)"
| "js_add NaN _ = NaN"
| "js_add _ NaN = NaN"
| "js_add PosInfinity NegInfinity = NaN"
| "js_add NegInfinity PosInfinity = NaN"
| "js_add PosInfinity _ = PosInfinity"
| "js_add NegInfinity _ = NegInfinity"
| "js_add _ PosInfinity = PosInfinity"
| "js_add _ NegInfinity = NegInfinity"

fun js_sub :: "jsnum \<Rightarrow> jsnum \<Rightarrow> jsnum" where
  "js_sub (Num a) (Num b) = to_double (a - b)"
| "js_sub NaN _ = NaN"
| "js_sub _ NaN = NaN"
| "js_sub PosInfinity PosInfinity = NaN"
| "js_sub NegInfinity NegInfinity = NaN"
| "js_sub PosInfinity _ = PosInfinity"
| "js_sub NegInfinity _ = NegInfinity"
| "js_sub _ PosInfinity = NegInfinity"
| "js_sub _ NegInfinity = PosInfinity"

text \<open>
  A number written into a document. The routes write a number only after it was
  compared with a stored quantity, so it is an integer; the other cases are never
  reached.
\<close>

fun stored :: "jsnum \<Rightarrow> int" where
  "stored (Num a) = a"
| "stored _ = 0"

subsection \<open>The collection\<close>

text \<open>
  \<open>material.save()\<close> of a document that was read from the collection: the document
  is validated; a rejected document raises (\<open>None\<close>), else the stored document with
  the same \<open>_id\<close> is replaced.
\<close>

definition replace_doc :: "material \<Rightarrow> store \<Rightarrow> store" where
  "replace_doc m st = map (\<lambda>x. if m_id x = m_id m then m else x) st"

definition save :: "material \<Rightarrow> store \<Rightarrow> store option" where
  "save m st = (if validate m then Some (replace_doc m st) else None)"

text \<open>\<open>material.save()\<close> of a new document: validated, then added to the collection.\<close>

definition save_new :: "material \<Rightarrow> store \<Rightarrow> store option" where
  "save_new m st = (if validate m then Some (st @ [m]) else None)"

text \<open>The \<open>_id\<close> of a new document is one that no stored document has.\<close>

definition new_id :: "store \<Rightarrow> nat" where
  "new_id st = Suc (fold max (map m_id st) 0)"

text \<open>
  \<open>Material.find({ matCode, availableQuantity: { $gt: 0 } }).sort({ date: 1 })\<close>:
  the documents of the code that have stock left, oldest date first, documents of equal
  date in insertion order.
\<close>

definition find_available :: "store \<Rightarrow> string \<Rightarrow> material list" where
  "find_available st code =
     sort_key date (filter (\<lambda>m. matCode m = code \<and> 0 < availableQuantity m) st)"

subsection \<open>POST /add\<close>

record add_request =
  add_matCode :: string
  add_quantity :: int
  add_amount :: "int option"
  add_addedBy :: string
  add_date :: "int option"
  add_projectAssigned :: nat
  add_file :: "string option"

text \<open>
  \<open>projects\<close> are the ids for which \<open>Project.findById\<close> finds a project, \<open>now\<close> is
  the clock read by \<open>new Date()\<close>. The route passes no \<open>name\<close> and no \<open>status\<close>; the
  status takes the schema's default, and the document has no name. A \<open>save\<close> that
  raises is caught by the route and answered with 500.
\<close>

definition post_add :: "nat list \<Rightarrow> int \<Rightarrow> add_request \<Rightarrow> store \<Rightarrow> (error + material) \<times> store" where
  "post_add projects now req st =
     (if add_projectAssigned req \<notin> set projects then (Inl InvalidProject, st)
      else
        let m = \<lparr> m_id = new_id st,
                  name = None,
                  matCode = add_matCode req,
                  quantity = add_quantity req,
                  availableQuantity = add_quantity req,
                  amount = add_amount req,
                  date = (case add_date req of Some d \<Rightarrow> d | None \<Rightarrow> now),
                  document = (case add_file req of Some p \<Rightarrow> p | None \<Rightarrow> []),
                  addedBy = add_addedBy req,
                  status = status_default,
                  usageHistory = [],
                  projectAssigned = add_projectAssigned req \<rparr>
        in case save_new m st of
             None \<Rightarrow> (Inl ServerError, st)
           | Some st' \<Rightarrow> (Inr m, st'))"

subsection \<open>POST /take\<close>

record take_request =
  take_matCode :: string
  take_quantity :: jsnum
  take_takenBy :: "string option"
  take_date :: "int option"

text \<open>The date of a usage event, \<open>date ? new Date(date) : new Date()\<close>: the date of the
  request, or the clock at the event; \<open>clock k\<close> is the clock at the event of the
  \<open>k\<close>-th document of the loop.\<close>

definition event_date :: "int option \<Rightarrow> (nat \<Rightarrow> int) \<Rightarrow> nat \<Rightarrow> int" where
  "event_date d clock k = (case d of Some t \<Rightarrow> t | None \<Rightarrow> clock k)"

text \<open>
  The loop over the documents found, with \<open>qtyToTake\<close> and the collection threaded
  through. Each document is the copy read before the loop. A \<open>save\<close> that raises
  ends the loop with the 500 of the route; the documents saved before stay saved.
\<close>

fun take_loop ::
    "string option \<Rightarrow> int option \<Rightarrow> (nat \<Rightarrow> int) \<Rightarrow> nat \<Rightarrow> jsnum \<Rightarrow> material list \<Rightarrow> store
     \<Rightarrow> error option \<times> store" where
  "take_loop tb d clock k qtyToTake [] st = (None, st)"
| "take_loop tb d clock k qtyToTake (m # ms) st =
     (if js_le qtyToTake (Num 0) then (None, st)
      else if js_ge (Num (availableQuantity m)) qtyToTake then
        (case save (m\<lparr> availableQuantity := stored (js_sub (Num (availableQuantity m)) qtyToTake),
                        usageHistory := usageHistory m @
                          [\<lparr> takenBy = tb, u_quantity = stored qtyToTake,
                             u_date = event_date d clock k \<rparr>] \<rparr>) st of
           None \<Rightarrow> (Some ServerError, st)
         | Some st' \<Rightarrow> take_loop tb d clock (Suc k) (Num 0) ms st')
      else
        (case save (m\<lparr> usageHistory := usageHistory m @
                          [\<lparr> takenBy = tb, u_quantity = availableQuantity m,
                             u_date = event_date d clock k \<rparr>],
                        availableQuantity := 0 \<rparr>) st of
           None \<Rightarrow> (Some ServerError, st)
         | Some st' \<Rightarrow>
             take_loop tb d clock (Suc k) (js_sub qtyToTake (Num (availableQuantity m))) ms st'))"

definition totalAvailable :: "material list \<Rightarrow> jsnum" where
  "totalAvailable materials =
     fold (\<lambda>m acc. js_add acc (Num (availableQuantity m))) materials (Num 0)"

datatype ok = MaterialTaken | StatusUpdated

definition post_take :: "(nat \<Rightarrow> int) \<Rightarrow> take_request \<Rightarrow> store \<Rightarrow> (error + ok) \<times> store" where
  "post_take clock req st =
     (let materials = find_available st (take_matCode req) in
      if materials = [] then (Inl MaterialNotFound, st)
      else if js_lt (totalAvailable materials) (take_quantity req)
        then (Inl InsufficientStock, st)
      else
        case take_loop (take_takenBy req) (take_date req) clock 0 (take_quantity req)
               materials st of
          (None, st') \<Rightarrow> (Inr MaterialTaken, st')
        | (Some e, st') \<Rightarrow> (Inl e, st'))"

subsection \<open>PUT /status/:matCode\<close>

definition accepted_status :: "string list" where
  "accepted_status = [''available'', ''on hold'', ''out of stock'']"

text \<open>\<open>Material.updateMany({ matCode }, { $set: ... })\<close> and its \<open>matchedCount\<close>.\<close>

definition updateMany_status :: "string \<Rightarrow> string \<Rightarrow> store \<Rightarrow> nat \<times> store" where
  "updateMany_status code s st =
     (length (filter (\<lambda>m. matCode m = code) st),
      map (\<lambda>m. if matCode m = code
                then (if s = ''out of stock''
                      then m\<lparr> status := s, availableQuantity := 0 \<rparr>
                      else m\<lparr> status := s \<rparr>)
                else m) st)"

definition put_status :: "string \<Rightarrow> string \<Rightarrow> store \<Rightarrow> (error + ok) \<times> store" where
  "put_status code s st =
     (if s \<notin> set accepted_status then (Inl InvalidStatus, st)
      else
        let (matchedCount, st') = updateMany_status code s st in
        if matchedCount = 0 then (Inl NoMaterialsForCode, st')
        else (Inr StatusUpdated, st'))"

subsection \<open>GET /material-report/:projectId\<close>

text \<open>
  The \<open>Date\<close> constructor of the language, for a local time zone of fixed offset
  \<open>tza\<close> (milliseconds east of UTC): the day number of a year and month index as the
  language standard computes it, month indices outside \<open>0..11\<close> carried into the year,
  and a year from 0 to 99 read as 1900 plus that year.
\<close>

definition msPerDay :: int where
  "msPerDay = 86400000"

definition DayFromYear :: "int \<Rightarrow> int" where
  "DayFromYear y =
     365 * (y - 1970) + (y - 1969) div 4 - (y - 1901) div 100 + (y - 1601) div 400"

definition InLeapYear :: "int \<Rightarrow> bool" where
  "InLeapYear y = (y mod 4 = 0 \<and> (y mod 100 \<noteq> 0 \<or> y mod 400 = 0))"

definition MonthStart :: "int \<Rightarrow> bool \<Rightarrow> int" where
  "MonthStart mn leap =
     (let l = (if leap then 1 else 0) in
      if mn = 0 then 0 else if mn = 1 then 31 else if mn = 2 then 59 + l
      else if mn = 3 then 90 + l else if mn = 4 then 120 + l else if mn = 5 then 151 + l
      else if mn = 6 then 181 + l else if mn = 7 then 212 + l else if mn = 8 then 243 + l
      else if mn = 9 then 273 + l else if mn = 10 then 304 + l else 334 + l)"

definition MakeDay :: "int \<Rightarrow> int \<Rightarrow> int \<Rightarrow> int" where
  "MakeDay year month dt =
     (let ym = year + month div 12; mn = month mod 12
      in DayFromYear ym + MonthStart mn (InLeapYear ym) + dt - 1)"

definition MakeTime :: "int \<Rightarrow> int \<Rightarrow> int \<Rightarrow> int \<Rightarrow> int" where
  "MakeTime h mi s ms = h * 3600000 + mi * 60000 + s * 1000 + ms"

definition MakeDate :: "int \<Rightarrow> int \<Rightarrow> int" where
  "MakeDate day time = day * msPerDay + time"

definition full_year :: "int \<Rightarrow> int" where
  "full_year y = (if 0 \<le> y \<and> y \<le> 99 then 1900 + y else y)"

definition new_Date :: "int \<Rightarrow> int \<Rightarrow> int \<Rightarrow> int \<Rightarrow> int \<Rightarrow> int \<Rightarrow> int \<Rightarrow> int \<Rightarrow> int" where
  "new_Date tza y m d h mi s ms =
     MakeDate (MakeDay (full_year y) m d) (MakeTime h mi s ms) - tza"

definition getMonthRange :: "int \<Rightarrow> int \<Rightarrow> int \<Rightarrow> int \<times> int" where
  "getMonthRange tza year month =
     (let start = new_Date tza year (month - 1) 1 0 0 0 0;
          end' = new_Date tza year month 0 23 59 59 999
      in (start, end'))"

record addition =
  ad_date :: int
  ad_quantity :: int
  ad_addedBy :: string
  ad_withinMonth :: bool

record consumption =
  co_date :: int
  co_quantity :: int
  consumedBy :: string
  co_withinMonth :: bool

record report_line =
  r_matCode :: string
  matName :: "string option"
  remaining :: int
  additions :: "addition list"
  consumptions :: "consumption list"
  monthlyAdded :: int
  monthlyConsumed :: int

record report_request =
  projectId :: nat
  month :: "int option"
  year :: "int option"

text \<open>
  One line of the report. The \<open>date\<close> fields of the lines keep the instant; their
  rendering as a day string is left out.
\<close>

definition report_of :: "int \<Rightarrow> int \<Rightarrow> material \<Rightarrow> report_line" where
  "report_of start end' mat =
     (let adds = [\<lparr> ad_date = date mat,
                      ad_quantity = quantity mat,
                      ad_addedBy = addedBy mat,
                      ad_withinMonth = (start \<le> date mat \<and> date mat \<le> end') \<rparr>];
          cons = map (\<lambda>c. \<lparr> co_date = u_date c,
                                co_quantity = u_quantity c,
                                consumedBy = (case takenBy c of None \<Rightarrow> ''N/A''
                                              | Some t \<Rightarrow> if t = [] then ''N/A'' else t),
                                co_withinMonth = (start \<le> u_date c \<and> u_date c \<le> end') \<rparr>)
                     (usageHistory mat);
          added = (if start \<le> date mat \<and> date mat \<le> end' then quantity mat else 0);
          consumed = fold (\<lambda>c sum. sum + co_quantity c) (filter co_withinMonth cons) 0
      in \<lparr> r_matCode = matCode mat,
            matName = name mat,
            remaining = availableQuantity mat,
            additions = adds,
            consumptions = cons,
            monthlyAdded = added,
            monthlyConsumed = consumed \<rparr>)"

definition get_material_report ::
    "int \<Rightarrow> report_request \<Rightarrow> store \<Rightarrow> (error + report_line list) \<times> store" where
  "get_material_report tza req st =
     (case (month req, year req) of
        (Some mo, Some y) \<Rightarrow>
          (let (start, end') = getMonthRange tza y mo;
               materials = filter (\<lambda>m. projectAssigned m = projectId req) st
           in (Inr (map (report_of start end') materials), st))
      | _ \<Rightarrow> (Inl MonthYearRequired, st))"

subsection \<open>Sequences of requests\<close>

datatype request =
    Add "nat list" int add_request
  | Take "nat \<Rightarrow> int" take_request
  | SetStatus string string

fun handle :: "request \<Rightarrow> store \<Rightarrow> store" where
  "handle (Add projects now req) st = snd (post_add projects now req st)"
| "handle (Take clock req) st = snd (post_take clock req st)"
| "handle (SetStatus code s) st = snd (put_status code s st)"

fun run :: "request list \<Rightarrow> store \<Rightarrow> store" where
  "run [] st = st"
| "run (r # rs) st = run rs (handle r st)"

section \<open>The ledger as the specification describes it\<close>



text \<open>A batch after one deduction: the quantity is taken off and one usage event is
  appended.\<close>

definition deduct :: "string option \<Rightarrow> int \<Rightarrow> int \<Rightarrow> material \<Rightarrow> material" where
  "deduct tb dt d m =
     m\<lparr> availableQuantity := availableQuantity m - d,
        usageHistory := usageHistory m @ [\<lparr> takenBy = tb, u_quantity = d, u_date = dt \<rparr>] \<rparr>"



text \<open>The aggregate remaining quantity of a code over all its batches, as the
  \<open>/total-availability\<close> aggregation groups it, and over its batches with stock left.\<close>

definition aggregate_remaining :: "store \<Rightarrow> string \<Rightarrow> int" where
  "aggregate_remaining st code =
     sum_list (map availableQuantity (filter (\<lambda>m. matCode m = code) st))"

definition stock_total :: "store \<Rightarrow> string \<Rightarrow> int" where
  "stock_total st code = sum_list (map availableQuantity (find_available st code))"

text \<open>Up to this bound every integer is a double, and sums and differences within it
  are exact.\<close>

definition exact_limit :: int where
  "exact_limit = 2 ^ 53"

text \<open>The two invariants of the data model.\<close>

definition within_bounds :: "material \<Rightarrow> bool" where
  "within_bounds m = (0 \<le> availableQuantity m \<and> availableQuantity m \<le> quantity m)"



text \<open>Requests that are additions or consumptions.\<close>

fun addition_or_consumption :: "request \<Rightarrow> bool" where
  "addition_or_consumption (Add projects now req) = True"
| "addition_or_consumption (Take clock req) = True"
| "addition_or_consumption (SetStatus code s) = False"


text \<open>
  The calendar. A month of a year has the days of the table below; day \<open>d\<close> of month
  \<open>m\<close> is the day number of 1 January plus the days of the months before \<open>m\<close>. The
  first instant of a month is 00:00:00.000 local time of its day 1, the last instant is
  23:59:59.999 local time of its last day.
\<close>

definition days_in_month :: "int \<Rightarrow> int \<Rightarrow> int" where
  "days_in_month y m =
     (if m = 2 then (if InLeapYear y then 29 else 28)
      else if m = 4 \<or> m = 6 \<or> m = 9 \<or> m = 11 then 30 else 31)"

definition civil_day :: "int \<Rightarrow> int \<Rightarrow> int \<Rightarrow> int" where
  "civil_day y m d = DayFromYear y + sum_list (map (days_in_month y) [1..m - 1]) + d - 1"

definition first_instant :: "int \<Rightarrow> int \<Rightarrow> int \<Rightarrow> int" where
  "first_instant tza y m = civil_day y m 1 * msPerDay - tza"

definition last_instant :: "int \<Rightarrow> int \<Rightarrow> int \<Rightarrow> int" where
  "last_instant tza y m =
     civil_day y m (days_in_month y m) * msPerDay
       + (23 * 3600000 + 59 * 60000 + 59 * 1000 + 999) - tza"

definition within :: "int \<Rightarrow> int \<Rightarrow> int \<Rightarrow> bool" where
  "within start end' t = (start \<le> t \<and> t \<le> end')"

section \<open>Example data\<close>

text \<open>The scenario of the specification, as documents of the database: batch A (code
  CEM1, 100, delivered on day 1) and batch B (code CEM1, 50, delivered on day 5); B was
  entered first.\<close>

definition day :: "int \<Rightarrow> int" where
  "day n = n * msPerDay"

definition batch_A :: material where
  "batch_A = \<lparr> m_id = 2, name = Some ''Cement'', matCode = ''CEM1'', quantity = 100,
               availableQuantity = 100, amount = None, date = day 1, document = [],
               addedBy = ''admin'', status = ''Available'', usageHistory = [],
               projectAssigned = 7 \<rparr>"

definition batch_B :: material where
  "batch_B = \<lparr> m_id = 1, name = Some ''Cement'', matCode = ''CEM1'', quantity = 50,
               availableQuantity = 50, amount = None, date = day 5, document = [],
               addedBy = ''admin'', status = ''Available'', usageHistory = [],
               projectAssigned = 7 \<rparr>"

definition cem1_store :: store where
  "cem1_store = [batch_B, batch_A]"

text \<open>A clock that stands at day 6 and advances by a second with every event.\<close>

definition clock6 :: "nat \<Rightarrow> int" where
  "clock6 k = day 6 + 1000 * int k"

definition take_cem1 :: "jsnum \<Rightarrow> take_request" where
  "take_cem1 q = \<lparr> take_matCode = ''CEM1'', take_quantity = q,
                   take_takenBy = Some ''site'', take_date = Some (day 6) \<rparr>"

definition add_cem1 :: "int \<Rightarrow> int \<Rightarrow> add_request" where
  "add_cem1 q d = \<lparr> add_matCode = ''CEM1'', add_quantity = q, add_amount = None,
                    add_addedBy = ''admin'', add_date = Some d, add_projectAssigned = 7,
                    add_file = None \<rparr>"

text \<open>A batch of the same code with a negative remaining quantity.\<close>

definition batch_N :: material where
  "batch_N = \<lparr> m_id = 4, name = Some ''Cement'', matCode = ''CEM1'', quantity = - 5,
               availableQuantity = - 5, amount = None, date = day 2, document = [],
               addedBy = ''admin'', status = ''Available'', usageHistory = [],
               projectAssigned = 7 \<rparr>"

definition batch_T :: material where
  "batch_T = \<lparr> m_id = 5, name = Some ''Cement'', matCode = ''CEM1'', quantity = 10,
               availableQuantity = 10, amount = None, date = day 3, document = [],
               addedBy = ''admin'', status = ''Available'', usageHistory = [],
               projectAssigned = 7 \<rparr>"

text \<open>Three batches whose remaining quantities, \<open>2^53\<close>, 1 and 1, add up to
  \<open>2^53 + 2\<close> as integers and to \<open>2^53\<close> as doubles.\<close>

definition big_batch :: "nat \<Rightarrow> int \<Rightarrow> material" where
  "big_batch i q = \<lparr> m_id = i, name = Some ''Sand'', matCode = ''BIG1'', quantity = q,
               availableQuantity = q, amount = None, date = day (int i), document = [],
               addedBy = ''admin'', status = ''Available'', usageHistory = [],
               projectAssigned = 7 \<rparr>"


text \<open>Two batches whose remaining quantities, \<open>2^53\<close> and 3, add up to
  \<open>2^53 + 3\<close> as integers and to \<open>2^53 + 4\<close> as doubles.\<close>

definition big_pair :: store where
  "big_pair = [big_batch 1 9007199254740992, big_batch 2 3]"

text \<open>The report scenario of the specification, in a zone five and a half hours east of
  UTC: a batch of 20 delivered on 3 January 1970, with one usage event of 7 on 20 January
  and one of 4 on 2 February.\<close>

definition ist :: int where
  "ist = 19800000"

definition batch_R :: material where
  "batch_R = \<lparr> m_id = 3, name = None, matCode = ''SND1'', quantity = 20,
               availableQuantity = 9, amount = None,
               date = new_Date ist 1970 0 3 12 0 0 0, document = [],
               addedBy = ''admin'', status = ''Available'',
               usageHistory =
                 [\<lparr> takenBy = Some ''site'', u_quantity = 7,
                     u_date = new_Date ist 1970 0 20 9 0 0 0 \<rparr>,
                  \<lparr> takenBy = None, u_quantity = 4,
                     u_date = new_Date ist 1970 1 2 9 0 0 0 \<rparr>],
               projectAssigned = 7 \<rparr>"

definition january_1970 :: report_request where
  "january_1970 = \<lparr> projectId = 7, month = Some 1, year = Some 1970 \<rparr>"


text \<open>The additions and consumptions among them.\<close>

definition cem1_consumptions :: "request list" where
  "cem1_consumptions =
     [Add [7] (day 7) (add_cem1 25 (day 7)),
      Take clock6 (take_cem1 (Num 120)),
      Take clock6 (take_cem1 (Num 10))]"

section \<open>Lemmas on numbers\<close>

declare bit_length.simps [simp del]

lemma bit_length_le: "n < 2 ^ k \<Longrightarrow> bit_length n \<le> k"
proof (induction k arbitrary: n)
  case 0
  then show ?case by (simp add: bit_length.simps[of n])
next
  case (Suc k)
  show ?case
  proof (cases "n \<le> 0")
    case True
    then show ?thesis by (simp add: bit_length.simps[of n])
  next
    case False
    have "n div 2 < 2 ^ k" using Suc.prems by simp
    then have "bit_length (n div 2) \<le> k" by (rule Suc.IH)
    then show ?thesis using False by (simp add: bit_length.simps[of n])
  qed
qed

lemma bit_length_pow2: "bit_length (2 ^ k) = Suc k"
proof (induction k)
  case 0
  show ?case by (simp add: bit_length.simps[of 1] bit_length.simps[of 0])
next
  case (Suc k)
  have "bit_length (2 ^ Suc k) = Suc (bit_length (2 ^ Suc k div 2))"
    by (subst bit_length.simps) simp
  then show ?case using Suc by simp
qed

lemma bit_length_upper: "n < 2 ^ bit_length n"
proof (induction n rule: bit_length.induct)
  case (1 n)
  show ?case
  proof (cases "n \<le> 0")
    case True
    then show ?thesis by (simp add: bit_length.simps[of n])
  next
    case False
    then have "n div 2 < 2 ^ bit_length (n div 2)" using "1.IH" by simp
    then have "n < 2 * 2 ^ bit_length (n div 2)" by linarith
    then show ?thesis using False by (simp add: bit_length.simps[of n])
  qed
qed

lemma bit_length_eq:
  assumes "2 ^ k \<le> n" and "n < 2 ^ Suc k"
  shows "bit_length n = Suc k"
proof -
  have "bit_length n \<le> Suc k" using assms(2) by (rule bit_length_le)
  moreover have "\<not> bit_length n \<le> k"
  proof
    assume "bit_length n \<le> k"
    then have "(2::int) ^ bit_length n \<le> 2 ^ k" by (simp add: power_increasing)
    then show False using bit_length_upper[of n] assms(1) by linarith
  qed
  ultimately show ?thesis by simp
qed

lemma bit_length_lower: "0 < n \<Longrightarrow> 2 ^ (bit_length n - 1) \<le> n"
proof (induction n rule: bit_length.induct)
  case (1 n)
  show ?case
  proof (cases "n div 2 \<le> 0")
    case True
    then have "n = 1" using "1.prems" by simp
    then show ?thesis by (simp add: bit_length.simps[of 1] bit_length.simps[of 0])
  next
    case False
    then have pos: "0 < n div 2" by simp
    then have ih: "2 ^ (bit_length (n div 2) - 1) \<le> n div 2"
      using "1.IH" "1.prems" by simp
    have "0 < bit_length (n div 2)"
      using pos by (simp add: bit_length.simps[of "n div 2"])
    then have "bit_length n - 1 = Suc (bit_length (n div 2) - 1)"
      using "1.prems" by (simp add: bit_length.simps[of n])
    then have "(2::int) ^ (bit_length n - 1) = 2 * 2 ^ (bit_length (n div 2) - 1)"
      by simp
    also have "\<dots> \<le> 2 * (n div 2)" using ih by simp
    also have "\<dots> \<le> n" by simp
    finally show ?thesis .
  qed
qed

text \<open>Within \<open>2^53\<close> an integer is its own double.\<close>

lemma to_double_exact:
  assumes "\<bar>n\<bar> \<le> exact_limit"
  shows "to_double n = Num n"
proof (cases "\<bar>n\<bar> = 2 ^ 53")
  case True
  have "bit_length \<bar>n\<bar> - 53 = 1"
    unfolding True bit_length_pow2 by simp
  then show ?thesis
    using True by (simp add: to_double_def Let_def) linarith
next
  case False
  then have "\<bar>n\<bar> < 2 ^ 53" using assms by (simp add: exact_limit_def)
  then have "bit_length \<bar>n\<bar> \<le> 53" by (rule bit_length_le)
  then have "bit_length \<bar>n\<bar> - 53 = 0" by simp
  moreover have "\<not> (2::int) ^ 1024 \<le> \<bar>n\<bar>"
    using \<open>\<bar>n\<bar> < 2 ^ 53\<close> by simp
  ultimately show ?thesis
    by (simp add: to_double_def Let_def)
qed

text \<open>The double of a positive integer is positive.\<close>

lemma to_double_pos:
  assumes "0 < n"
  shows "js_lt (Num 0) (to_double n)"
proof -
  let ?e = "bit_length n - 53"
  have "(2::int) ^ ?e \<le> 2 ^ (bit_length n - 1)"
    by (rule power_increasing) simp_all
  also have "\<dots> \<le> n" using assms by (rule bit_length_lower)
  finally have le: "2 ^ ?e \<le> n" .
  have q: "0 < n div 2 ^ ?e"
    using le pos_imp_zdiv_pos_iff[of "2 ^ ?e" n] by simp
  have "0 < (n div 2 ^ ?e + 1) * 2 ^ ?e" "0 < n div 2 ^ ?e * 2 ^ ?e"
    using q by simp_all
  then show ?thesis
    using assms by (simp add: to_double_def Let_def)
qed

lemma js_le_Num [simp]: "js_le (Num a) (Num b) = (a \<le> b)"
  by (auto simp: js_le_def)

lemma js_ge_Num [simp]: "js_ge (Num a) (Num b) = (b \<le> a)"
  by (simp add: js_ge_def)

lemma js_le_NaN [simp]: "js_le NaN x = False" "js_le x NaN = False"
  by (simp_all add: js_le_def)

text \<open>What the two tests of the loop say about \<open>qtyToTake\<close>.\<close>

lemma loop_tests:
  assumes "\<not> js_le q (Num 0)" "js_ge (Num a) q"
  shows "\<exists>n. q = Num n \<and> 0 < n \<and> n \<le> a"
  using assms by (cases q) (auto simp: js_ge_def js_le_def)

section \<open>Lemmas on the collection\<close>

lemma set_find_available:
  "set (find_available st code) = {m \<in> set st. matCode m = code \<and> 0 < availableQuantity m}"
  by (simp add: find_available_def)

lemma find_available_empty:
  "(find_available st code = []) = (\<not> (\<exists>m\<in>set st. matCode m = code \<and> 0 < availableQuantity m))"
proof -
  have "(find_available st code = []) = (set (find_available st code) = {})"
    by simp
  also have "\<dots> = (\<not> (\<exists>m\<in>set st. matCode m = code \<and> 0 < availableQuantity m))"
    unfolding set_find_available by blast
  finally show ?thesis .
qed




lemma sum_nonpositive_filter:
  "sum_list (map f (filter P xs)) \<le> sum_list (map f (filter (\<lambda>x. P x \<and> 0 < f x) xs))"
  for f :: "'a \<Rightarrow> int"
  by (induction xs) simp_all

lemma sum_nonneg_filter:
  "\<forall>x\<in>set xs. P x \<longrightarrow> 0 \<le> f x \<Longrightarrow>
   sum_list (map f (filter (\<lambda>x. P x \<and> 0 < f x) xs)) = sum_list (map f (filter P xs))"
  for f :: "'a \<Rightarrow> int"
  by (induction xs) auto

lemma sum_list_insort_key:
  "sum_list (map f (insort_key k x xs)) = f x + sum_list (map f xs)"
  for f :: "'a \<Rightarrow> int"
  by (induction xs) simp_all

lemma sum_list_sort_key: "sum_list (map f (sort_key k xs)) = sum_list (map f xs)"
  for f :: "'a \<Rightarrow> int"
  by (induction xs) (simp_all add: sum_list_insort_key)

text \<open>The batches without stock take from the aggregate over all batches of a code, or
  add nothing to it.\<close>

lemma aggregate_le_stock_total: "aggregate_remaining st code \<le> stock_total st code"
  unfolding aggregate_remaining_def stock_total_def find_available_def sum_list_sort_key
  by (rule sum_nonpositive_filter)

lemma aggregate_eq_stock_total:
  assumes "\<forall>m\<in>set st. matCode m = code \<longrightarrow> 0 \<le> availableQuantity m"
  shows "stock_total st code = aggregate_remaining st code"
  unfolding aggregate_remaining_def stock_total_def find_available_def sum_list_sort_key
  using assms by (rule sum_nonneg_filter)

lemma sum_list_pos:
  "ms \<noteq> [] \<Longrightarrow> \<forall>m\<in>set ms. 0 < f m \<Longrightarrow> (0::int) < sum_list (map f ms)"
proof (induction ms)
  case Nil
  then show ?case by simp
next
  case (Cons m ms)
  then show ?case by (cases "ms = []") (simp_all add: add_pos_pos)
qed

lemma sum_list_nonneg_pos: "\<forall>m\<in>set ms. 0 < f m \<Longrightarrow> (0::int) \<le> sum_list (map f ms)"
  by (induction ms) simp_all

text \<open>The total the route adds up: positive when there is stock, and the sum of the
  integers when that is within \<open>2^53\<close>.\<close>

lemma fold_total_exact:
  assumes "\<forall>m\<in>set ms. 0 < availableQuantity m" "0 \<le> a"
    and "a + sum_list (map availableQuantity ms) \<le> exact_limit"
  shows "fold (\<lambda>m acc. js_add acc (Num (availableQuantity m))) ms (Num a) =
         Num (a + sum_list (map availableQuantity ms))"
  using assms
proof (induction ms arbitrary: a)
  case Nil
  then show ?case by simp
next
  case (Cons m ms)
  have rest: "0 \<le> sum_list (map availableQuantity ms)"
    using Cons.prems(1) by (intro sum_list_nonneg_pos) simp
  have m: "0 < availableQuantity m" using Cons.prems(1) by simp
  have "\<bar>a + availableQuantity m\<bar> \<le> exact_limit"
    using Cons.prems(2,3) m rest by simp
  then have "js_add (Num a) (Num (availableQuantity m)) = Num (a + availableQuantity m)"
    by (simp add: to_double_exact)
  moreover have "fold (\<lambda>m acc. js_add acc (Num (availableQuantity m))) ms
        (Num (a + availableQuantity m)) =
      Num (a + availableQuantity m + sum_list (map availableQuantity ms))"
    using Cons.prems m by (intro Cons.IH) simp_all
  ultimately show ?case by (simp add: add.assoc)
qed

lemma totalAvailable_exact:
  assumes "\<forall>m\<in>set ms. 0 < availableQuantity m"
    and "sum_list (map availableQuantity ms) \<le> exact_limit"
  shows "totalAvailable ms = Num (sum_list (map availableQuantity ms))"
  using fold_total_exact[OF assms(1), of 0] assms(2) by (simp add: totalAvailable_def)

lemma fold_total_pos:
  assumes "\<forall>m\<in>set ms. 0 < availableQuantity m" "js_lt (Num 0) acc"
  shows "js_lt (Num 0) (fold (\<lambda>m acc. js_add acc (Num (availableQuantity m))) ms acc)"
  using assms
proof (induction ms arbitrary: acc)
  case Nil
  then show ?case by simp
next
  case (Cons m ms)
  have m: "0 < availableQuantity m" using Cons.prems(1) by simp
  have "js_lt (Num 0) (js_add acc (Num (availableQuantity m)))"
  proof (cases acc)
    case (Num a)
    then have "0 < a + availableQuantity m" using Cons.prems(2) m by simp
    then show ?thesis unfolding Num js_add.simps by (rule to_double_pos)
  qed (use Cons.prems(2) in simp_all)
  then show ?case using Cons.prems(1) by (simp add: Cons.IH)
qed

lemma totalAvailable_pos:
  assumes "ms \<noteq> []" "\<forall>m\<in>set ms. 0 < availableQuantity m"
  shows "js_lt (Num 0) (totalAvailable ms)"
proof (cases ms)
  case Nil
  then show ?thesis using assms(1) by simp
next
  case (Cons m ms')
  have "js_lt (Num 0) (js_add (Num 0) (Num (availableQuantity m)))"
    using assms(2) Cons by (simp add: to_double_pos)
  then show ?thesis
    unfolding totalAvailable_def Cons
    using assms(2) Cons by (simp add: fold_total_pos)
qed

lemma not_less_nonpositive:
  "js_lt (Num 0) t \<Longrightarrow> q \<le> 0 \<Longrightarrow> \<not> js_lt t (Num q)"
  by (cases t) simp_all

section \<open>The deduction loop\<close>


lemma validate_deduct: "validate (deduct tb dt d m) = validate m"
  by (simp add: deduct_def validate_def)


lemma deduct_all:
  "m\<lparr> usageHistory := usageHistory m @
        [\<lparr> takenBy = tb, u_quantity = availableQuantity m, u_date = dt \<rparr>],
      availableQuantity := 0 \<rparr> = deduct tb dt (availableQuantity m) m"
  by (cases m) (simp add: deduct_def)

lemma save_deduct:
  "save (deduct tb dt n m) st =
     (if validate m then Some (replace_doc (deduct tb dt n m) st) else None)"
  by (simp add: save_def validate_deduct)

lemma replace_doc_Nil: "replace_doc m' [] = []"
  by (simp add: replace_doc_def)

lemma replace_doc_Cons:
  "replace_doc m' (x # st) = (if m_id x = m_id m' then m' else x) # replace_doc m' st"
  by (simp add: replace_doc_def)


lemma map_m_id_replace_doc: "map m_id (replace_doc m' st) = map m_id st"
  by (induction st) (simp_all add: replace_doc_Nil replace_doc_Cons)


lemma set_replace_doc: "set (replace_doc m' st) \<subseteq> insert m' (set st)"
  by (induction st) (auto simp: replace_doc_Nil replace_doc_Cons)


text \<open>One turn of the loop, whatever the number asked for, on a document with stock
  within \<open>2^53\<close>: the loop breaks, or the save is rejected, or a quantity from 1 to
  the stock of the document is deducted and the loop goes on.\<close>

lemma take_loop_step:
  assumes "0 < availableQuantity m" "availableQuantity m \<le> exact_limit"
  shows "\<exists>n q'. 0 < n \<and> n \<le> availableQuantity m \<and>
           (take_loop tb d clock k q (m # ms) st = (None, st)
            \<or> take_loop tb d clock k q (m # ms) st = (Some ServerError, st)
            \<or> (validate m \<and> take_loop tb d clock k q (m # ms) st =
                 take_loop tb d clock (Suc k) q' ms
                   (replace_doc (deduct tb (event_date d clock k) n m) st)))"
proof (cases "js_le q (Num 0)")
  case True
  then show ?thesis using assms(1) by auto
next
  case brk: False
  show ?thesis
  proof (cases "js_ge (Num (availableQuantity m)) q")
    case True
    from loop_tests[OF brk True] obtain n
      where n: "q = Num n" "0 < n" "n \<le> availableQuantity m" by blast
    have "\<bar>availableQuantity m - n\<bar> \<le> exact_limit" using n assms by simp
    then have "m\<lparr> availableQuantity := stored (js_sub (Num (availableQuantity m)) q),
                  usageHistory := usageHistory m @
                    [\<lparr> takenBy = tb, u_quantity = stored q,
                       u_date = event_date d clock k \<rparr>] \<rparr> =
               deduct tb (event_date d clock k) n m"
      by (simp add: n(1) to_double_exact deduct_def)
    then have "take_loop tb d clock k q (m # ms) st =
        (case save (deduct tb (event_date d clock k) n m) st of
           None \<Rightarrow> (Some ServerError, st)
         | Some st' \<Rightarrow> take_loop tb d clock (Suc k) (Num 0) ms st')"
      using brk True by simp
    then show ?thesis
      using n(2,3) by (cases "validate m") (auto simp: save_deduct)
  next
    case False
    then have "take_loop tb d clock k q (m # ms) st =
        (case save (deduct tb (event_date d clock k) (availableQuantity m) m) st of
           None \<Rightarrow> (Some ServerError, st)
         | Some st' \<Rightarrow>
             take_loop tb d clock (Suc k) (js_sub q (Num (availableQuantity m))) ms st')"
      using brk by (simp add: deduct_all)
    then show ?thesis
      using assms(1) by (cases "validate m") (auto simp: save_deduct)
  qed
qed


lemma take_loop_nonpositive: "q \<le> 0 \<Longrightarrow> take_loop tb d clock k (Num q) ms st = (None, st)"
  by (cases ms) simp_all











section \<open>Consumption\<close>

lemma take_loop_error: "fst (take_loop tb d clock k q ms st) \<in> {None, Some ServerError}"
  by (induction ms arbitrary: q st k) (simp_all split: option.splits)

lemma find_available_cem1: "find_available cem1_store ''CEM1'' = [batch_A, batch_B]"
  by (simp add: find_available_def cem1_store_def batch_A_def batch_B_def day_def msPerDay_def)






text \<open>
  C2 (amended). For a code with a batch that has stock left, a request for a quantity
  above the total the route computes, which is the sum in doubles over the batches of
  the code with stock left, is answered with \<open>InsufficientStock\<close>, and the collection
  is the one before the call. When the remaining quantities of these batches add up to
  \<open>2^53\<close> at most, this is every request for a quantity above their sum.
\<close>

theorem post_take_insufficient:
  assumes "\<exists>m\<in>set st. matCode m = take_matCode req \<and> 0 < availableQuantity m"
  shows "(js_lt (totalAvailable (find_available st (take_matCode req))) (take_quantity req) \<longrightarrow>
            post_take clock req st = (Inl InsufficientStock, st))
       \<and> (take_quantity req = Num q \<and> stock_total st (take_matCode req) \<le> exact_limit
            \<and> stock_total st (take_matCode req) < q \<longrightarrow>
            post_take clock req st = (Inl InsufficientStock, st))"
proof -
  let ?ms = "find_available st (take_matCode req)"
  have ne: "?ms \<noteq> []"
    using assms by (simp add: find_available_empty)
  have route: "post_take clock req st = (Inl InsufficientStock, st)"
    if "js_lt (totalAvailable ?ms) (take_quantity req)"
    using ne that by (simp add: post_take_def Let_def)
  have "js_lt (totalAvailable ?ms) (take_quantity req)"
    if "take_quantity req = Num q" and "stock_total st (take_matCode req) \<le> exact_limit"
      and "stock_total st (take_matCode req) < q"
  proof -
    have "\<forall>m\<in>set ?ms. 0 < availableQuantity m"
      by (simp add: set_find_available)
    moreover have "sum_list (map availableQuantity ?ms) \<le> exact_limit"
      using that(2) by (simp add: stock_total_def)
    ultimately have "totalAvailable ?ms = Num (sum_list (map availableQuantity ?ms))"
      by (rule totalAvailable_exact)
    then show ?thesis
      using that(1,3) by (simp add: stock_total_def)
  qed
  then show ?thesis
    using route by blast
qed

theorem post_take_insufficient_witness:
  "post_take clock6 (take_cem1 (Num 200)) cem1_store = (Inl InsufficientStock, cem1_store)
   \<and> map availableQuantity cem1_store = [50, 100]
   \<and> stock_total cem1_store ''CEM1'' = 150
   \<and> aggregate_remaining cem1_store ''CEM1'' = 150"
proof -
  have code: "take_matCode (take_cem1 (Num 200)) = ''CEM1''"
    and q: "take_quantity (take_cem1 (Num 200)) = Num 200"
    by (simp_all add: take_cem1_def)
  have h: "\<exists>m\<in>set cem1_store. matCode m = take_matCode (take_cem1 (Num 200))
              \<and> 0 < availableQuantity m"
    by (simp add: code cem1_store_def batch_A_def batch_B_def)
  have t: "stock_total cem1_store ''CEM1'' = 150"
    by (simp add: stock_total_def find_available_cem1 batch_A_def batch_B_def)
  have a: "aggregate_remaining cem1_store ''CEM1'' = 150"
    by (simp add: aggregate_remaining_def cem1_store_def batch_A_def batch_B_def)
  show ?thesis
    using post_take_insufficient[OF h, of clock6 200] t a q
    by (simp add: code exact_limit_def) (simp add: cem1_store_def batch_A_def batch_B_def)
qed

text \<open>
  C2 as stated fails where a batch of the code has a negative remaining quantity: with
  batches of \<open>-5\<close> and 10 the aggregate remaining quantity is 5, the route adds up the
  batches with stock left to 10, and a request for 8 succeeds and deducts 8. It also
  fails beyond \<open>2^53\<close>: batches of \<open>2^53\<close> and 3 hold \<open>2^53 + 3\<close>, the route adds
  them up to \<open>2^53 + 4\<close>, and a request for \<open>2^53 + 4\<close> succeeds and takes all there
  is.
\<close>

theorem post_take_insufficient_counterexample:
  "aggregate_remaining [batch_N, batch_T] ''CEM1'' = 5
   \<and> post_take clock6 (take_cem1 (Num 8)) [batch_N, batch_T] =
       (Inr MaterialTaken, [batch_N, deduct (Some ''site'') (day 6) 8 batch_T])
   \<and> availableQuantity (deduct (Some ''site'') (day 6) 8 batch_T) = 2
   \<and> aggregate_remaining big_pair ''BIG1'' = 9007199254740995
   \<and> post_take clock6
        \<lparr> take_matCode = ''BIG1'', take_quantity = Num 9007199254740996,
          take_takenBy = None, take_date = Some (day 6) \<rparr> big_pair =
       (Inr MaterialTaken,
        [deduct None (day 6) 9007199254740992 (big_batch 1 9007199254740992),
         deduct None (day 6) 3 (big_batch 2 3)])"
proof -
  have small: "to_double 10 = Num 10" "to_double 2 = Num 2"
    by (simp_all add: to_double_exact exact_limit_def)
  have c1: "aggregate_remaining [batch_N, batch_T] ''CEM1'' = 5"
    by (simp add: aggregate_remaining_def batch_N_def batch_T_def)
  have c2: "post_take clock6 (take_cem1 (Num 8)) [batch_N, batch_T] =
       (Inr MaterialTaken, [batch_N, deduct (Some ''site'') (day 6) 8 batch_T])"
    by (simp add: post_take_def Let_def take_cem1_def find_available_def totalAvailable_def
        save_def validate_def status_enum_def batch_N_def batch_T_def day_def msPerDay_def
        small js_ge_def replace_doc_def deduct_def event_date_def)
  have c3: "availableQuantity (deduct (Some ''site'') (day 6) 8 batch_T) = 2"
    by (simp add: deduct_def batch_T_def)
  have c4: "aggregate_remaining big_pair ''BIG1'' = 9007199254740995"
    by (simp add: aggregate_remaining_def big_pair_def big_batch_def)
  have find: "find_available big_pair ''BIG1'' = big_pair"
    by (simp add: find_available_def big_pair_def big_batch_def day_def msPerDay_def)
  have r1: "to_double 9007199254740992 = Num 9007199254740992" "to_double 4 = Num 4"
    "to_double 1 = Num 1"
    by (simp_all add: to_double_exact exact_limit_def)
  have "bit_length 9007199254740995 = Suc 53"
    by (rule bit_length_eq) simp_all
  then have r2: "to_double 9007199254740995 = Num 9007199254740996"
    by (simp add: to_double_def Let_def)
  have total: "totalAvailable big_pair = Num 9007199254740996"
    by (simp add: totalAvailable_def big_pair_def big_batch_def r1 r2)
  have loop: "take_loop None (Some (day 6)) clock6 0 (Num 9007199254740996) big_pair big_pair =
      (None, [deduct None (day 6) 9007199254740992 (big_batch 1 9007199254740992),
              deduct None (day 6) 3 (big_batch 2 3)])"
    by (simp add: big_pair_def big_batch_def js_ge_def save_def validate_def status_enum_def
        replace_doc_def deduct_def event_date_def r1)
  have c5: "post_take clock6
        \<lparr> take_matCode = ''BIG1'', take_quantity = Num 9007199254740996,
          take_takenBy = None, take_date = Some (day 6) \<rparr> big_pair =
       (Inr MaterialTaken,
        [deduct None (day 6) 9007199254740992 (big_batch 1 9007199254740992),
         deduct None (day 6) 3 (big_batch 2 3)])"
    by (simp add: post_take_def Let_def find total loop) (simp add: big_pair_def)
  show ?thesis
    using c1 c2 c3 c4 c5 by (intro conjI)
qed

text \<open>
  C8. Whatever the request (its quantity may be any number, or \<open>NaN\<close>), the answer
  is \<open>MaterialNotFound\<close> exactly when no batch of the code has a remaining quantity
  above zero, and the collection is then the one before the call.
\<close>

theorem post_take_not_found:
  "(fst (post_take now req st) = Inl MaterialNotFound) =
     (\<not> (\<exists>m\<in>set st. matCode m = take_matCode req \<and> 0 < availableQuantity m))
   \<and> (fst (post_take now req st) = Inl MaterialNotFound \<longrightarrow> snd (post_take now req st) = st)"
proof -
  let ?ms = "find_available st (take_matCode req)"
  let ?loop = "take_loop (take_takenBy req) (take_date req) now 0 (take_quantity req) ?ms st"
  have "fst ?loop \<in> {None, Some ServerError}"
    by (rule take_loop_error)
  then have "fst (case ?loop of (None, st') \<Rightarrow> (Inr MaterialTaken, st')
                   | (Some e, st') \<Rightarrow> (Inl e, st')) \<noteq> Inl MaterialNotFound"
    by (cases ?loop) auto
  then have "fst (post_take now req st) = Inl MaterialNotFound \<longleftrightarrow> ?ms = []"
    by (simp add: post_take_def Let_def)
  moreover have "?ms = [] \<Longrightarrow> snd (post_take now req st) = st"
    by (simp add: post_take_def Let_def)
  ultimately show ?thesis
    unfolding find_available_empty by blast
qed

theorem post_take_not_found_witness:
  "fst (post_take clock6 (take_cem1 NaN) [batch_A\<lparr> availableQuantity := 0 \<rparr>]) =
       Inl MaterialNotFound
   \<and> snd (post_take clock6 (take_cem1 NaN) [batch_A\<lparr> availableQuantity := 0 \<rparr>]) =
       [batch_A\<lparr> availableQuantity := 0 \<rparr>]
   \<and> fst (post_take clock6 (take_cem1 NaN) cem1_store) \<noteq> Inl MaterialNotFound"
proof -
  have "\<not> (\<exists>m\<in>set [batch_A\<lparr> availableQuantity := 0 \<rparr>].
            matCode m = take_matCode (take_cem1 NaN) \<and> 0 < availableQuantity m)"
    by simp
  moreover have "\<exists>m\<in>set cem1_store.
            matCode m = take_matCode (take_cem1 NaN) \<and> 0 < availableQuantity m"
    by (simp add: cem1_store_def batch_A_def batch_B_def take_cem1_def)
  ultimately show ?thesis
    using post_take_not_found[of clock6 "take_cem1 NaN" "[batch_A\<lparr> availableQuantity := 0 \<rparr>]"]
      post_take_not_found[of clock6 "take_cem1 NaN" cem1_store]
    by blast
qed

text \<open>
  C9. A request for a quantity that is zero or negative, for a code with a batch that
  has stock left, is answered with success, and the collection is the one before the
  call: no remaining quantity and no usage history has changed.
\<close>

theorem post_take_nonpositive:
  assumes "take_quantity req = Num q" and "q \<le> 0"
    and "\<exists>m\<in>set st. matCode m = take_matCode req \<and> 0 < availableQuantity m"
  shows "post_take now req st = (Inr MaterialTaken, st)"
proof -
  let ?ms = "find_available st (take_matCode req)"
  have ne: "?ms \<noteq> []"
    using assms(3) by (simp add: find_available_empty)
  have "\<forall>m\<in>set ?ms. 0 < availableQuantity m"
    by (simp add: set_find_available)
  then have "js_lt (Num 0) (totalAvailable ?ms)"
    using ne by (intro totalAvailable_pos)
  then have "\<not> js_lt (totalAvailable ?ms) (Num q)"
    using assms(2) by (rule not_less_nonpositive)
  then show ?thesis
    using ne assms(1,2) by (simp add: post_take_def Let_def take_loop_nonpositive)
qed

theorem post_take_nonpositive_witness:
  "post_take clock6 (take_cem1 (Num (- 3))) cem1_store = (Inr MaterialTaken, cem1_store)
   \<and> post_take clock6 (take_cem1 (Num 0)) cem1_store = (Inr MaterialTaken, cem1_store)"
proof -
  have h: "\<exists>m\<in>set cem1_store. matCode m = ''CEM1'' \<and> 0 < availableQuantity m"
    by (simp add: cem1_store_def batch_A_def batch_B_def)
  show ?thesis
    using post_take_nonpositive[of "take_cem1 (Num (- 3))" "- 3" cem1_store clock6]
      post_take_nonpositive[of "take_cem1 (Num 0)" 0 cem1_store clock6] h
    by (simp add: take_cem1_def)
qed

text \<open>A request without a quantity: \<open>Number(undefined)\<close> is \<open>NaN\<close>, no comparison
  with it holds, and the loop takes all that is left of every batch of the code.\<close>

lemma js_lt_NaN: "js_lt x NaN = False"
  by (cases x) simp_all

lemma post_take_NaN_cem1:
  "post_take clock6 (take_cem1 NaN) cem1_store =
     (Inr MaterialTaken,
      [deduct (Some ''site'') (day 6) 50 batch_B, deduct (Some ''site'') (day 6) 100 batch_A])"
proof -
  have "take_loop (Some ''site'') (Some (day 6)) clock6 0 NaN [batch_A, batch_B] cem1_store =
      (None,
       [deduct (Some ''site'') (day 6) 50 batch_B, deduct (Some ''site'') (day 6) 100 batch_A])"
    by (simp add: js_ge_def save_def validate_def status_enum_def replace_doc_def
        cem1_store_def event_date_def batch_A_def batch_B_def deduct_def)
  then show ?thesis
    by (simp add: post_take_def Let_def take_cem1_def find_available_cem1 js_lt_NaN)
qed

section \<open>Invariants\<close>

text \<open>A property of documents that every deduction of a positive quantity within the
  remaining quantity keeps is kept by the loop, whatever the number asked for and
  whether or not a \<open>save\<close> is rejected.\<close>

lemma take_loop_preserves:
  assumes step: "\<And>m n dt. P m \<Longrightarrow> 0 < n \<Longrightarrow> n \<le> availableQuantity m \<Longrightarrow> P (deduct tb dt n m)"
    and "\<forall>x\<in>set st. P x"
    and "\<forall>m\<in>set ms. P m \<and> 0 < availableQuantity m \<and> availableQuantity m \<le> exact_limit"
  shows "\<forall>x\<in>set (snd (take_loop tb d clock k q ms st)). P x"
  using assms(2,3)
proof (induction ms arbitrary: q st k)
  case Nil
  then show ?case by simp
next
  case (Cons m ms)
  have m: "P m" "0 < availableQuantity m" "availableQuantity m \<le> exact_limit"
    using Cons.prems(2) by simp_all
  have rest: "\<forall>m\<in>set ms. P m \<and> 0 < availableQuantity m \<and> availableQuantity m \<le> exact_limit"
    using Cons.prems(2) by simp
  from take_loop_step[OF m(2,3), of tb d clock k q ms st] obtain n q'
    where n: "0 < n" "n \<le> availableQuantity m"
      and cases: "take_loop tb d clock k q (m # ms) st = (None, st)
            \<or> take_loop tb d clock k q (m # ms) st = (Some ServerError, st)
            \<or> (validate m \<and> take_loop tb d clock k q (m # ms) st =
                 take_loop tb d clock (Suc k) q' ms
                   (replace_doc (deduct tb (event_date d clock k) n m) st))"
    by blast
  have "P (deduct tb (event_date d clock k) n m)"
    using m(1) n by (rule step)
  then have saved: "\<forall>x\<in>set (replace_doc (deduct tb (event_date d clock k) n m) st). P x"
    using Cons.prems(1) set_replace_doc[of "deduct tb (event_date d clock k) n m" st] by blast
  have "\<forall>x\<in>set (snd (take_loop tb d clock (Suc k) q' ms
          (replace_doc (deduct tb (event_date d clock k) n m) st))). P x"
    using saved rest by (rule Cons.IH)
  then show ?case
    using cases Cons.prems(1) by (elim disjE conjE) simp_all
qed

lemma post_take_preserves:
  assumes step: "\<And>tb dt m n. P m \<Longrightarrow> 0 < n \<Longrightarrow> n \<le> availableQuantity m \<Longrightarrow> P (deduct tb dt n m)"
    and "\<forall>x\<in>set st. P x \<and> availableQuantity x \<le> exact_limit"
  shows "\<forall>x\<in>set (snd (post_take clock req st)). P x"
proof -
  let ?ms = "find_available st (take_matCode req)"
  let ?loop = "take_loop (take_takenBy req) (take_date req) clock 0 (take_quantity req) ?ms st"
  have st: "\<forall>x\<in>set st. P x" using assms(2) by blast
  have "\<forall>m\<in>set ?ms. P m \<and> 0 < availableQuantity m \<and> availableQuantity m \<le> exact_limit"
    using assms(2) by (simp add: set_find_available)
  then have loop: "\<forall>x\<in>set (snd ?loop). P x"
    using step st by (intro take_loop_preserves) blast+
  have "snd (post_take clock req st) = st \<or> snd (post_take clock req st) = snd ?loop"
    by (cases ?loop) (simp add: post_take_def Let_def split: option.splits)
  then show ?thesis
    using loop st by (elim disjE) simp_all
qed

text \<open>The addition of the route stores nothing: the document it builds has no name and
  is rejected by \<open>save\<close>.\<close>

lemma post_add_store: "snd (post_add projects now req st) = st"
  by (simp add: post_add_def Let_def save_new_def validate_def)

lemma post_add_error:
  "fst (post_add projects now req st) \<in> {Inl InvalidProject, Inl ServerError}"
  by (simp add: post_add_def Let_def save_new_def validate_def)

lemma handle_empty: "handle r [] = []"
proof (cases r)
  case (Add projects now req)
  then show ?thesis by (simp add: post_add_store)
next
  case (Take clock req)
  then show ?thesis by (simp add: post_take_def Let_def find_available_def)
next
  case (SetStatus code s)
  then show ?thesis by (simp add: put_status_def updateMany_status_def)
qed

lemma run_empty: "run rs [] = []"
  by (induction rs) (simp_all add: handle_empty)

lemma bounded_deduct:
  "within_bounds m \<and> availableQuantity m \<le> exact_limit \<Longrightarrow> 0 < n \<Longrightarrow> n \<le> availableQuantity m
   \<Longrightarrow> within_bounds (deduct tb dt n m) \<and> availableQuantity (deduct tb dt n m) \<le> exact_limit"
  by (simp add: within_bounds_def deduct_def)



lemma handle_within_bounds:
  assumes "addition_or_consumption r"
    "\<forall>x\<in>set st. within_bounds x \<and> availableQuantity x \<le> exact_limit"
  shows "\<forall>x\<in>set (handle r st). within_bounds x \<and> availableQuantity x \<le> exact_limit"
proof (cases r)
  case (Add projects now req)
  then show ?thesis using assms(2) by (simp add: post_add_store)
next
  case (Take clock req)
  have "\<forall>x\<in>set st. (within_bounds x \<and> availableQuantity x \<le> exact_limit)
          \<and> availableQuantity x \<le> exact_limit"
    using assms(2) by blast
  then show ?thesis
    unfolding Take handle.simps by (intro post_take_preserves bounded_deduct)
next
  case (SetStatus code s)
  then show ?thesis using assms(1) by simp
qed


lemma run_preserves:
  assumes "\<And>r st. ok r \<Longrightarrow> \<forall>x\<in>set st. P x \<Longrightarrow> \<forall>x\<in>set (handle r st). P x"
    and "\<forall>r\<in>set rs. ok r" and "\<forall>x\<in>set st. P x"
  shows "\<forall>x\<in>set (run rs st). P x"
  using assms(2,3)
proof (induction rs arbitrary: st)
  case Nil
  then show ?case by simp
next
  case (Cons r rs)
  have "\<forall>x\<in>set (handle r st). P x"
    using Cons.prems by (intro assms(1)) simp_all
  then show ?case
    using Cons.prems(1) by (simp add: Cons.IH)
qed

lemma take_120_cem1:
  "post_take clock6 (take_cem1 (Num 120)) cem1_store =
     (Inr MaterialTaken,
      [deduct (Some ''site'') (day 6) 20 batch_B, deduct (Some ''site'') (day 6) 100 batch_A])"
proof -
  have small: "to_double 50 = Num 50" "to_double 100 = Num 100" "to_double 150 = Num 150"
    "to_double 20 = Num 20" "to_double 30 = Num 30" "to_double 0 = Num 0"
    by (simp_all add: to_double_exact exact_limit_def)
  have "take_loop (Some ''site'') (Some (day 6)) clock6 0 (Num 120) [batch_A, batch_B] cem1_store =
      (None,
       [deduct (Some ''site'') (day 6) 20 batch_B, deduct (Some ''site'') (day 6) 100 batch_A])"
    by (simp add: js_ge_def save_def validate_def status_enum_def replace_doc_def
        cem1_store_def event_date_def batch_A_def batch_B_def deduct_def small)
  moreover have "totalAvailable [batch_A, batch_B] = Num 150"
    by (simp add: totalAvailable_def batch_A_def batch_B_def small)
  ultimately show ?thesis
    by (simp add: post_take_def Let_def take_cem1_def find_available_cem1)
qed

lemma take_10_after:
  "post_take clock6 (take_cem1 (Num 10))
     [deduct (Some ''site'') (day 6) 20 batch_B, deduct (Some ''site'') (day 6) 100 batch_A] =
     (Inr MaterialTaken,
      [deduct (Some ''site'') (day 6) 10 (deduct (Some ''site'') (day 6) 20 batch_B),
       deduct (Some ''site'') (day 6) 100 batch_A])"
proof -
  let ?B = "deduct (Some ''site'') (day 6) 20 batch_B"
  let ?A = "deduct (Some ''site'') (day 6) 100 batch_A"
  have small: "to_double 30 = Num 30" "to_double 20 = Num 20"
    by (simp_all add: to_double_exact exact_limit_def)
  have find: "find_available [?B, ?A] ''CEM1'' = [?B]"
    by (simp add: find_available_def deduct_def batch_A_def batch_B_def)
  have "take_loop (Some ''site'') (Some (day 6)) clock6 0 (Num 10) [?B] [?B, ?A] =
      (None, [deduct (Some ''site'') (day 6) 10 ?B, ?A])"
    by (simp add: js_ge_def save_def validate_def status_enum_def replace_doc_def
        event_date_def batch_A_def batch_B_def deduct_def small)
  moreover have "totalAvailable [?B] = Num 30"
    by (simp add: totalAvailable_def batch_B_def deduct_def small)
  ultimately show ?thesis
    by (simp add: post_take_def Let_def take_cem1_def find)
qed


lemma run_cem1_consumptions:
  "run cem1_consumptions cem1_store =
     [deduct (Some ''site'') (day 6) 10 (deduct (Some ''site'') (day 6) 20 batch_B),
      deduct (Some ''site'') (day 6) 100 batch_A]"
  by (simp add: cem1_consumptions_def post_add_store take_120_cem1 take_10_after)


text \<open>
  C3. After any sequence of additions and consumptions from the empty collection, every
  batch has a remaining quantity from 0 to its delivered quantity. The addition of the
  route is always rejected (the schema requires a name, the route passes none), so the
  collection is still empty. The interval is also kept from any collection of batches
  that are within it, with remaining quantities of \<open>2^53\<close> at most.
\<close>

theorem remaining_within_bounds:
  assumes "\<forall>r\<in>set rs. addition_or_consumption r"
  shows "(\<forall>m\<in>set (run rs []). 0 \<le> availableQuantity m \<and> availableQuantity m \<le> quantity m)
       \<and> run rs [] = []
       \<and> ((\<forall>m\<in>set st. within_bounds m \<and> availableQuantity m \<le> exact_limit) \<longrightarrow>
            (\<forall>m\<in>set (run rs st).
               0 \<le> availableQuantity m \<and> availableQuantity m \<le> quantity m))"
proof -
  have "\<forall>m\<in>set (run rs st). within_bounds m \<and> availableQuantity m \<le> exact_limit"
    if "\<forall>m\<in>set st. within_bounds m \<and> availableQuantity m \<le> exact_limit"
    using handle_within_bounds assms that
    by (rule run_preserves[where ok = addition_or_consumption
          and P = "\<lambda>m. within_bounds m \<and> availableQuantity m \<le> exact_limit"])
  then have "(\<forall>m\<in>set st. within_bounds m \<and> availableQuantity m \<le> exact_limit) \<longrightarrow>
            (\<forall>m\<in>set (run rs st). within_bounds m)"
    by blast
  then show ?thesis
    unfolding run_empty within_bounds_def by simp
qed

theorem remaining_within_bounds_witness:
  "list_all addition_or_consumption cem1_consumptions
   \<and> list_all within_bounds cem1_store
   \<and> list_all within_bounds (run cem1_consumptions cem1_store)
   \<and> map availableQuantity (run cem1_consumptions cem1_store) = [20, 0]
   \<and> map quantity (run cem1_consumptions cem1_store) = [50, 100]
   \<and> run cem1_consumptions [] = []"
proof -
  have h: "\<forall>r\<in>set cem1_consumptions. addition_or_consumption r"
    by (simp add: cem1_consumptions_def)
  have s: "\<forall>m\<in>set cem1_store. within_bounds m \<and> availableQuantity m \<le> exact_limit"
    by (simp add: cem1_store_def batch_A_def batch_B_def within_bounds_def exact_limit_def)
  have "\<forall>m\<in>set (run cem1_consumptions cem1_store).
          0 \<le> availableQuantity m \<and> availableQuantity m \<le> quantity m"
    and e: "run cem1_consumptions [] = []"
    using remaining_within_bounds[OF h, of cem1_store] s by blast+
  then have r: "list_all within_bounds (run cem1_consumptions cem1_store)"
    unfolding list_all_iff within_bounds_def by blast
  have h': "list_all addition_or_consumption cem1_consumptions"
    using h unfolding list_all_iff .
  have s': "list_all within_bounds cem1_store"
    using s unfolding list_all_iff by blast
  have a: "map availableQuantity (run cem1_consumptions cem1_store) = [20, 0]"
    and q: "map quantity (run cem1_consumptions cem1_store) = [50, 100]"
    by (simp_all add: run_cem1_consumptions deduct_def batch_A_def batch_B_def)
  show ?thesis
    using h' s' r a q e by (intro conjI)
qed




text \<open>No route changes the id of a document or adds a document, so document ids stay
  distinct.\<close>

lemma map_m_id_take_loop: "map m_id (snd (take_loop tb d clock k q ms st)) = map m_id st"
  by (induction ms arbitrary: q st k)
     (simp_all add: save_def map_m_id_replace_doc split: option.splits)

lemma map_m_id_handle: "map m_id (handle r st) = map m_id st"
proof (cases r)
  case (Add projects now req)
  then show ?thesis by (simp add: post_add_store)
next
  case (Take clock req)
  let ?loop = "take_loop (take_takenBy req) (take_date req) clock 0 (take_quantity req)
    (find_available st (take_matCode req)) st"
  have "snd (post_take clock req st) = st \<or> snd (post_take clock req st) = snd ?loop"
    by (cases ?loop) (simp add: post_take_def Let_def split: option.splits)
  then show ?thesis
    using map_m_id_take_loop[of "take_takenBy req" "take_date req" clock 0 "take_quantity req"
        "find_available st (take_matCode req)" st]
    by (elim disjE) (simp_all add: Take)
next
  case (SetStatus code s)
  have "map m_id (snd (updateMany_status code s st)) = map m_id st"
    by (simp add: updateMany_status_def)
  then show ?thesis
    by (simp add: SetStatus put_status_def split_beta)
qed

lemma distinct_ids_run: "distinct (map m_id st) \<Longrightarrow> distinct (map m_id (run rs st))"
  by (induction rs arbitrary: st) (simp_all add: map_m_id_handle)

section \<open>The bulk status update\<close>

lemma matchedCount_zero:
  "(fst (updateMany_status code s st) = 0) = (\<not> (\<exists>m\<in>set st. matCode m = code))"
  by (simp add: updateMany_status_def filter_empty_conv)

lemma updateMany_status_unmatched:
  "\<not> (\<exists>m\<in>set st. matCode m = code) \<Longrightarrow> snd (updateMany_status code s st) = st"
  by (simp add: updateMany_status_def map_idI)

lemma updateMany_status_written:
  "\<forall>m\<in>set (snd (updateMany_status code s st)). matCode m = code \<longrightarrow> status m = s"
proof
  fix m
  let ?f = "\<lambda>m. if matCode m = code
                then (if s = ''out of stock''
                      then m\<lparr> status := s, availableQuantity := 0 \<rparr>
                      else m\<lparr> status := s \<rparr>)
                else m"
  assume "m \<in> set (snd (updateMany_status code s st))"
  then have "m \<in> ?f ` set st"
    by (simp only: updateMany_status_def snd_conv set_map)
  then obtain x where m: "m = ?f x" by blast
  show "matCode m = code \<longrightarrow> status m = s"
    unfolding m by simp
qed

text \<open>
  C7. For a status that the route accepts: when no batch has the code the answer is the
  not-found error and the collection is as before; otherwise the answer is success and
  the collection is the one before with, in every batch of the code, the status set
  and, for "out of stock", the remaining quantity set to 0. Batches of other codes,
  and in the batches of the code the usage history, the delivered quantity and every
  other field, are as before.
\<close>

theorem put_status_bulk:
  assumes "s \<in> set accepted_status"
  shows "(\<not> (\<exists>m\<in>set st. matCode m = code) \<longrightarrow>
            put_status code s st = (Inl NoMaterialsForCode, st))
       \<and> ((\<exists>m\<in>set st. matCode m = code) \<longrightarrow>
            put_status code s st =
              (Inr StatusUpdated,
               map (\<lambda>m. if matCode m = code
                         then (if s = ''out of stock''
                               then m\<lparr> status := s, availableQuantity := 0 \<rparr>
                               else m\<lparr> status := s \<rparr>)
                         else m) st))
       \<and> map usageHistory (snd (put_status code s st)) = map usageHistory st
       \<and> map quantity (snd (put_status code s st)) = map quantity st
       \<and> map matCode (snd (put_status code s st)) = map matCode st"
proof -
  have res: "put_status code s st =
      (if fst (updateMany_status code s st) = 0 then Inl NoMaterialsForCode else Inr StatusUpdated,
       snd (updateMany_status code s st))"
    using assms by (simp add: put_status_def split_beta)
  have same: "map usageHistory (snd (updateMany_status code s st)) = map usageHistory st"
    "map quantity (snd (updateMany_status code s st)) = map quantity st"
    "map matCode (snd (updateMany_status code s st)) = map matCode st"
    by (simp_all add: updateMany_status_def)
  show ?thesis
    unfolding res matchedCount_zero
    using updateMany_status_unmatched[of st code s] same
    by (simp add: updateMany_status_def)
qed

theorem put_status_bulk_witness:
  "put_status ''CEM1'' ''out of stock'' cem1_store =
     (Inr StatusUpdated,
      [batch_B\<lparr> status := ''out of stock'', availableQuantity := 0 \<rparr>,
       batch_A\<lparr> status := ''out of stock'', availableQuantity := 0 \<rparr>])
   \<and> put_status ''CEM1'' ''on hold'' cem1_store =
     (Inr StatusUpdated, [batch_B\<lparr> status := ''on hold'' \<rparr>, batch_A\<lparr> status := ''on hold'' \<rparr>])
   \<and> put_status ''CEM2'' ''on hold'' cem1_store = (Inl NoMaterialsForCode, cem1_store)"
proof -
  have a: "''out of stock'' \<in> set accepted_status" "''on hold'' \<in> set accepted_status"
    by (simp_all add: accepted_status_def)
  have c: "\<exists>m\<in>set cem1_store. matCode m = ''CEM1''"
    "\<not> (\<exists>m\<in>set cem1_store. matCode m = ''CEM2'')"
    by (simp_all add: cem1_store_def batch_A_def batch_B_def)
  have m: "matCode batch_A = ''CEM1''" "matCode batch_B = ''CEM1''"
    by (simp_all add: batch_A_def batch_B_def)
  show ?thesis
    using put_status_bulk[OF a(1), of cem1_store "''CEM1''"]
      put_status_bulk[OF a(2), of cem1_store "''CEM1''"]
      put_status_bulk[OF a(2), of cem1_store "''CEM2''"] c
    by (simp add: cem1_store_def m)
qed

text \<open>
  C10. The route answers with the validation error exactly for the statuses other than
  "available", "on hold" and "out of stock", and then the collection is as before. The
  spellings of the schema's enum are among the rejected ones, and a status that an update
  has written into a batch is none of the enum's.
\<close>

theorem put_status_whitelist:
  "(fst (put_status code s st) = Inl InvalidStatus) =
     (s \<noteq> ''available'' \<and> s \<noteq> ''on hold'' \<and> s \<noteq> ''out of stock'')
   \<and> (fst (put_status code s st) = Inl InvalidStatus \<longrightarrow> snd (put_status code s st) = st)
   \<and> (s \<in> set status_enum \<longrightarrow> put_status code s st = (Inl InvalidStatus, st))
   \<and> (fst (put_status code s st) = Inr StatusUpdated \<longrightarrow>
        (\<forall>m\<in>set (snd (put_status code s st)).
           matCode m = code \<longrightarrow> status m = s \<and> status m \<notin> set status_enum))"
proof -
  have enum: "s \<in> set status_enum \<Longrightarrow> s \<notin> set accepted_status"
    by (auto simp: status_enum_def accepted_status_def)
  have acc: "(s \<in> set accepted_status) = (s = ''available'' \<or> s = ''on hold'' \<or> s = ''out of stock'')"
    by (simp add: accepted_status_def)
  have rej: "s \<notin> set accepted_status \<Longrightarrow> put_status code s st = (Inl InvalidStatus, st)"
    by (simp add: put_status_def)
  have ok: "s \<in> set accepted_status \<Longrightarrow>
      put_status code s st =
        (if fst (updateMany_status code s st) = 0 then Inl NoMaterialsForCode else Inr StatusUpdated,
         snd (updateMany_status code s st))"
    by (simp add: put_status_def split_beta)
  have written: "\<forall>m\<in>set (snd (updateMany_status code s st)). matCode m = code \<longrightarrow> status m = s"
    by (rule updateMany_status_written)
  show ?thesis
  proof (cases "s \<in> set accepted_status")
    case True
    then have "s \<notin> set status_enum" using enum by blast
    then show ?thesis
      using True written acc by (simp add: ok[OF True])
  next
    case False
    then show ?thesis
      using acc by (simp add: rej[OF False])
  qed
qed

theorem put_status_whitelist_witness:
  "put_status ''CEM1'' ''Out of Stock'' cem1_store = (Inl InvalidStatus, cem1_store)
   \<and> put_status ''CEM1'' ''Available'' cem1_store = (Inl InvalidStatus, cem1_store)
   \<and> put_status ''CEM1'' ''On Hold'' cem1_store = (Inl InvalidStatus, cem1_store)
   \<and> fst (put_status ''CEM1'' ''available'' cem1_store) = Inr StatusUpdated
   \<and> map status (snd (put_status ''CEM1'' ''available'' cem1_store)) = [''available'', ''available'']
   \<and> list_all (\<lambda>m. status m \<notin> set status_enum) (snd (put_status ''CEM1'' ''available'' cem1_store))"
proof -
  have e: "''Out of Stock'' \<in> set status_enum" "''Available'' \<in> set status_enum"
    "''On Hold'' \<in> set status_enum"
    by (simp_all add: status_enum_def)
  have r: "put_status ''CEM1'' ''available'' cem1_store =
      (Inr StatusUpdated, [batch_B\<lparr> status := ''available'' \<rparr>, batch_A\<lparr> status := ''available'' \<rparr>])"
    by (simp add: put_status_def updateMany_status_def accepted_status_def cem1_store_def
        batch_A_def batch_B_def)
  have "\<forall>m\<in>set (snd (put_status ''CEM1'' ''available'' cem1_store)).
          matCode m = ''CEM1'' \<longrightarrow> status m = ''available'' \<and> status m \<notin> set status_enum"
    using put_status_whitelist[of "''CEM1''" "''available''" cem1_store] r by simp
  then have "list_all (\<lambda>m. status m \<notin> set status_enum)
               (snd (put_status ''CEM1'' ''available'' cem1_store))"
    unfolding r by (simp add: batch_A_def batch_B_def)
  then show ?thesis
    using put_status_whitelist[of "''CEM1''" "''Out of Stock''" cem1_store]
      put_status_whitelist[of "''CEM1''" "''Available''" cem1_store]
      put_status_whitelist[of "''CEM1''" "''On Hold''" cem1_store] e r
    by simp
qed

section \<open>The calendar\<close>

lemma div_succ:
  assumes "0 < (n::int)"
  shows "(a + 1) div n = a div n + (if (a + 1) mod n = 0 then 1 else 0)"
proof -
  define q where "q = a div n"
  define r where "r = a mod n"
  have a: "a = n * q + r" by (simp add: q_def r_def)
  have r: "0 \<le> r" "r < n" using assms by (simp_all add: r_def)
  show ?thesis
  proof (cases "r + 1 = n")
    case True
    then have "a + 1 = n * (q + 1) + 0" using a by (simp add: algebra_simps)
    then have "(a + 1) div n = q + 1" "(a + 1) mod n = 0"
      using assms by (simp_all only: int_div_pos_eq int_mod_pos_eq)
    then show ?thesis by (simp add: q_def)
  next
    case False
    then have lt: "0 \<le> r + 1" "r + 1 < n" using r by simp_all
    have "a + 1 = n * q + (r + 1)" using a by simp
    then have "(a + 1) div n = q" "(a + 1) mod n = r + 1"
      using lt int_div_pos_eq[of "a + 1" n q "r + 1"] int_mod_pos_eq[of "a + 1" n q "r + 1"]
      by simp_all
    then show ?thesis using r by (simp add: q_def)
  qed
qed

lemma div_shift:
  assumes "0 < (n::int)" "k = n * j + 1"
  shows "(y + 1 - k) div n = (y - k) div n + (if y mod n = 0 then 1 else 0)"
proof -
  have "(y - k + 1) mod n = y mod n"
    using mod_mult_self2[of y n "- j"] assms(2) by (simp add: algebra_simps)
  moreover have "y + 1 - k = y - k + 1" by simp
  ultimately show ?thesis
    using div_succ[OF assms(1), of "y - k"] by (simp only:)
qed

lemma leap_arith:
  fixes a b c y :: int
  assumes "p100 \<Longrightarrow> p4" "p400 \<Longrightarrow> p100"
  shows "365 * (y + 1 - 1970) + (a + (if p4 then 1 else 0)) - (b + (if p100 then 1 else 0))
           + (c + (if p400 then 1 else 0))
         = 365 * (y - 1970) + a - b + c + (if p4 \<and> (\<not> p100 \<or> p400) then 366 else 365)"
  using assms by auto

text \<open>A year has 365 days, a leap year 366.\<close>

lemma DayFromYear_next:
  "DayFromYear (y + 1) = DayFromYear y + (if InLeapYear y then 366 else 365)"
proof -
  have d4: "(y + 1 - 1969) div 4 = (y - 1969) div 4 + (if y mod 4 = 0 then 1 else 0)"
    by (rule div_shift[where j = 492]) simp_all
  have d100: "(y + 1 - 1901) div 100 = (y - 1901) div 100 + (if y mod 100 = 0 then 1 else 0)"
    by (rule div_shift[where j = 19]) simp_all
  have d400: "(y + 1 - 1601) div 400 = (y - 1601) div 400 + (if y mod 400 = 0 then 1 else 0)"
    by (rule div_shift[where j = 4]) simp_all
  have c1: "y mod 100 = 0 \<Longrightarrow> y mod 4 = 0"
    using mod_mod_cancel[of 4 100 y] by simp
  have c2: "y mod 400 = 0 \<Longrightarrow> y mod 100 = 0"
    using mod_mod_cancel[of 100 400 y] by simp
  show ?thesis
    unfolding DayFromYear_def InLeapYear_def d4 d100 d400
    by (rule leap_arith[OF c1 c2])
qed

lemma months_before:
  "[1..0] = []" "[1..1] = [1]" "[1..2] = [1,2]" "[1..3] = [1,2,3]" "[1..4] = [1,2,3,4]"
  "[1..5] = [1,2,3,4,5]" "[1..6] = [1,2,3,4,5,6]" "[1..7] = [1,2,3,4,5,6,7]"
  "[1..8] = [1,2,3,4,5,6,7,8]" "[1..9] = [1,2,3,4,5,6,7,8,9]"
  "[1..10] = [1,2,3,4,5,6,7,8,9,10]" "[1..11] = [1,2,3,4,5,6,7,8,9,10,11::int]"
  by (simp_all add: upto_rec1)

lemma month_cases:
  assumes "1 \<le> (m::int)" "m \<le> 12"
  shows "m = 1 \<or> m = 2 \<or> m = 3 \<or> m = 4 \<or> m = 5 \<or> m = 6 \<or> m = 7 \<or> m = 8 \<or> m = 9
         \<or> m = 10 \<or> m = 11 \<or> m = 12"
  using assms by arith

lemma MakeDay_first:
  assumes "1 \<le> m" "m \<le> 12"
  shows "MakeDay y (m - 1) 1 = civil_day y m 1"
  using month_cases[OF assms]
  by (elim disjE)
     (simp_all add: MakeDay_def civil_day_def MonthStart_def days_in_month_def months_before)

lemma MakeDay_last:
  assumes "1 \<le> m" "m \<le> 12"
  shows "MakeDay y m 0 = civil_day y m (days_in_month y m)"
  using month_cases[OF assms]
  by (elim disjE)
     (simp_all add: MakeDay_def civil_day_def MonthStart_def days_in_month_def months_before
        DayFromYear_next)

lemma getMonthRange_month:
  assumes "1 \<le> m" "m \<le> 12"
  shows "getMonthRange tza y m =
         (first_instant tza (full_year y) m, last_instant tza (full_year y) m)"
  by (simp add: getMonthRange_def new_Date_def MakeDate_def MakeTime_def first_instant_def
        last_instant_def MakeDay_first[OF assms] MakeDay_last[OF assms])

text \<open>The instant after the last instant of a month is the first instant of the next
  month.\<close>

lemma last_instant_next:
  assumes "1 \<le> m" "m \<le> 12"
  shows "last_instant tza y m + 1 =
         (if m = 12 then first_instant tza (y + 1) 1 else first_instant tza y (m + 1))"
  using month_cases[OF assms]
  by (elim disjE)
     (simp_all add: last_instant_def first_instant_def civil_day_def days_in_month_def
        months_before DayFromYear_next msPerDay_def)

section \<open>The monthly report\<close>




lemma monthlyAdded_report_of:
  "monthlyAdded (report_of start end' mat) =
     (if within start end' (date mat) then quantity mat else 0)"
  by (simp add: report_of_def Let_def within_def)

lemma get_material_report_lines:
  assumes "month req = Some mo" "year req = Some y"
  shows "get_material_report tza req st =
     (Inr (map (report_of (fst (getMonthRange tza y mo)) (snd (getMonthRange tza y mo)))
             (filter (\<lambda>m. projectAssigned m = projectId req) st)), st)"
  using assms by (simp add: get_material_report_def split_beta Let_def)



lemma january_1970_range:
  "getMonthRange ist 1970 1 = (- 19800000, 2658599999)"
  by (simp add: getMonthRange_def new_Date_def MakeDate_def MakeDay_def MakeTime_def
      DayFromYear_def InLeapYear_def MonthStart_def full_year_def msPerDay_def ist_def)

lemma batch_R_dates:
  "date batch_R = 196200000"
  "map u_date (usageHistory batch_R) = [1654200000, 2777400000]"
  by (simp_all add: batch_R_def new_Date_def MakeDate_def MakeDay_def MakeTime_def
      DayFromYear_def InLeapYear_def MonthStart_def full_year_def msPerDay_def ist_def)


text \<open>
  C6. For a request with month and year, the \<open>monthlyAdded\<close> of the line of a batch is
  the delivered quantity of the batch when its date lies from \<open>start\<close> to \<open>end\<close>, both
  included, and 0 otherwise, where \<open>(start, end) = getMonthRange\<close>, for a month from 1
  to 12 the first and the last instant of that month; the collection the report returns
  is the one it was given, with every batch and usage event as it was.
\<close>

theorem monthly_added:
  assumes "month req = Some mo" and "year req = Some y"
  shows "\<exists>lines.
           get_material_report tza req st = (Inr lines, st)
         \<and> map monthlyAdded lines =
             map (\<lambda>m. if fst (getMonthRange tza y mo) \<le> date m
                          \<and> date m \<le> snd (getMonthRange tza y mo)
                       then quantity m else 0)
               (filter (\<lambda>m. projectAssigned m = projectId req) st)
         \<and> (1 \<le> mo \<and> mo \<le> 12 \<longrightarrow>
              getMonthRange tza y mo =
                (first_instant tza (full_year y) mo, last_instant tza (full_year y) mo))"
proof -
  let ?lines = "map (report_of (fst (getMonthRange tza y mo)) (snd (getMonthRange tza y mo)))
                  (filter (\<lambda>m. projectAssigned m = projectId req) st)"
  have "get_material_report tza req st = (Inr ?lines, st)"
    using assms by (rule get_material_report_lines)
  moreover have "map monthlyAdded ?lines =
      map (\<lambda>m. if fst (getMonthRange tza y mo) \<le> date m
                   \<and> date m \<le> snd (getMonthRange tza y mo)
                then quantity m else 0)
        (filter (\<lambda>m. projectAssigned m = projectId req) st)"
    by (simp add: monthlyAdded_report_of within_def comp_def)
  moreover have "1 \<le> mo \<and> mo \<le> 12 \<longrightarrow>
      getMonthRange tza y mo =
        (first_instant tza (full_year y) mo, last_instant tza (full_year y) mo)"
    by (simp add: getMonthRange_month)
  ultimately show ?thesis by blast
qed

theorem monthly_added_witness:
  "(\<exists>lines. get_material_report ist january_1970 [batch_R] = (Inr lines, [batch_R])
      \<and> map monthlyAdded lines = [20])
   \<and> (\<exists>lines. get_material_report ist (january_1970\<lparr> month := Some 2 \<rparr>) [batch_R] =
         (Inr lines, [batch_R])
      \<and> map monthlyAdded lines = [0])"
proof -
  have h: "month january_1970 = Some 1" "year january_1970 = Some 1970"
    by (simp_all add: january_1970_def)
  have h2: "month (january_1970\<lparr> month := Some 2 \<rparr>) = Some 2"
    "year (january_1970\<lparr> month := Some 2 \<rparr>) = Some 1970"
    by (simp_all add: january_1970_def)
  have p: "projectId january_1970 = projectAssigned batch_R"
    by (simp add: january_1970_def batch_R_def)
  have q: "quantity batch_R = 20"
    by (simp add: batch_R_def)
  have feb: "getMonthRange ist 1970 2 = (2658600000, 5077799999)"
    by (simp add: getMonthRange_def new_Date_def MakeDate_def MakeDay_def MakeTime_def
        DayFromYear_def InLeapYear_def MonthStart_def full_year_def msPerDay_def ist_def)
  show ?thesis
    using monthly_added[OF h, of ist "[batch_R]"] monthly_added[OF h2, of ist "[batch_R]"]
    by (simp add: january_1970_range feb p q batch_R_dates(1))
       (elim exE conjE, intro exI conjI, assumption+)
qed

end
